theory Spec2Isabelle
  imports Complex_Main
begin

section \<open>Road maps of the Mexican states: the per-state pipeline\<close>

text \<open>
  The program \<^verbatim>\<open>roads_mexico_complete.py\<close> is one loop over a table of 32 states. Each
  iteration fetches a boundary, buffers it, fetches the road network inside the buffered
  boundary, clips the roads back to the true boundary, classifies and styles them, and saves
  three maps. The geocoder, the road service, the geometry kernel and the plotting library are
  not part of the program: they appear below as the fields of a record of functions, and every
  theorem holds for whatever these functions compute.

  A Python \<^verbatim>\<open>str\<close> is a sequence of code points. Every string of this program has code
  points below 256, so a code point is an 8-bit \<^typ>\<open>char\<close> read as Latin-1 (\<open>CHR 0xE9\<close> is the
  letter e with an acute accent, U+00E9). Python's floats are modelled as real numbers, and
  the values that leave the reals (the quotient of a division by zero) are kept apart in
  a type of their own. Where a claim depends on two floats being the same or not, in the raw
  line widths, every operation is rounded to binary64.
\<close>

subsection \<open>Exceptions of the modelled code\<close>

datatype py_error = IndexError | ValueError

subsection \<open>Highway classification\<close>

text \<open>An OSM \<^verbatim>\<open>highway\<close> tag is a string or a list of strings.\<close>

datatype hw_tag = Str string | Lst "string list"

definition highway_order :: "string list" where
  "highway_order =
     [''motorway'', ''trunk'', ''primary'', ''secondary'',
      ''tertiary'', ''unclassified'', ''residential'', ''service'']"

text \<open>\<^verbatim>\<open>list.index(x)\<close>: the position of the first occurrence, \<^verbatim>\<open>ValueError\<close> when there is none.\<close>

fun list_index :: "'a list \<Rightarrow> 'a \<Rightarrow> py_error + nat" where
  "list_index [] x = Inl ValueError"
| "list_index (y # ys) x =
     (if y = x then Inr 0
      else (case list_index ys x of Inl e \<Rightarrow> Inl e | Inr i \<Rightarrow> Inr (Suc i)))"

text \<open>\<^verbatim>\<open>hw[0] if isinstance(hw, list) else hw\<close>\<close>

fun first_tag :: "hw_tag \<Rightarrow> py_error + string" where
  "first_tag (Lst []) = Inl IndexError"
| "first_tag (Lst (x # xs)) = Inr x"
| "first_tag (Str s) = Inr s"

definition get_hwy_code :: "hw_tag \<Rightarrow> py_error + nat" where
  "get_hwy_code hw =
     (case first_tag hw of
        Inl e \<Rightarrow> Inl e
      | Inr hw0 \<Rightarrow>
          if hw0 \<in> set highway_order then list_index highway_order hw0
          else Inr (length highway_order))"


subsection \<open>Strings\<close>

text \<open>The six accented letters that the file names transliterate (U+00E1, U+00E9, U+00ED,
  U+00F3, U+00FA, U+00F1).\<close>

abbreviation a_acute :: char where "a_acute \<equiv> CHR 0xE1"
abbreviation e_acute :: char where "e_acute \<equiv> CHR 0xE9"
abbreviation i_acute :: char where "i_acute \<equiv> CHR 0xED"
abbreviation o_acute :: char where "o_acute \<equiv> CHR 0xF3"
abbreviation u_acute :: char where "u_acute \<equiv> CHR 0xFA"
abbreviation n_tilde :: char where "n_tilde \<equiv> CHR 0xF1"

text \<open>
  \<^verbatim>\<open>str.lower()\<close> on code points below 256: the capitals A to Z and the accented capitals
  U+00C0 to U+00DE (without the multiplication sign U+00D7) move up by 32; every other code
  point stays.
\<close>

definition lower_char :: "char \<Rightarrow> char" where
  "lower_char c =
     (let n = (of_char c :: nat)
      in if (65 \<le> n \<and> n \<le> 90) \<or> (192 \<le> n \<and> n \<le> 222 \<and> n \<noteq> 215)
         then char_of (n + 32) else c)"

definition str_lower :: "string \<Rightarrow> string" where
  "str_lower s = map lower_char s"

text \<open>\<^verbatim>\<open>s.replace(old, new)\<close> where \<^verbatim>\<open>old\<close> and \<^verbatim>\<open>new\<close> are single characters, as in every call
  of the program.\<close>

definition str_replace :: "char \<Rightarrow> char \<Rightarrow> string \<Rightarrow> string" where
  "str_replace old new s = map (\<lambda>c. if c = old then new else c) s"

text \<open>\<^verbatim>\<open>pat in s\<close> and \<^verbatim>\<open>Series.str.contains(pat)\<close> for a pattern without regex operators: \<^verbatim>\<open>pat\<close>
  occurs in \<^verbatim>\<open>s\<close> as a contiguous substring.\<close>

fun starts_with :: "string \<Rightarrow> string \<Rightarrow> bool" where
  "starts_with [] s = True"
| "starts_with (p # ps) [] = False"
| "starts_with (p # ps) (c # cs) = (p = c \<and> starts_with ps cs)"

fun str_contains :: "string \<Rightarrow> string \<Rightarrow> bool" where
  "str_contains pat [] = starts_with pat []"
| "str_contains pat (c # cs) = (starts_with pat (c # cs) \<or> str_contains pat cs)"

subsection \<open>The state table and the buffer constants\<close>

definition states :: "(string \<times> string) list" where
  "states =
     [(''01'', ''Aguascalientes''), (''02'', ''Baja California''),
      (''03'', ''Baja California Sur''), (''04'', ''Campeche''), (''05'', ''Coahuila''),
      (''06'', ''Colima''), (''07'', ''Chiapas''), (''08'', ''Chihuahua''),
      (''09'', ''Mexico City''), (''10'', ''Durango''), (''11'', ''Guanajuato''),
      (''12'', ''Guerrero''), (''13'', ''Hidalgo''), (''14'', ''Jalisco''),
      (''15'', ''Estado de M'' @ [e_acute] @ ''xico''),
      (''16'', ''Michoac'' @ [a_acute] @ ''n''), (''17'', ''Morelos''), (''18'', ''Nayarit''),
      (''19'', ''Nuevo Le'' @ [o_acute] @ ''n''), (''20'', ''Oaxaca''), (''21'', ''Puebla''),
      (''22'', ''Quer'' @ [e_acute] @ ''taro''), (''23'', ''Quintana Roo''),
      (''24'', ''San Luis Potos'' @ [i_acute]), (''25'', ''Sinaloa''), (''26'', ''Sonora''),
      (''27'', ''Tabasco''), (''28'', ''Tamaulipas''), (''29'', ''Tlaxcala''),
      (''30'', ''Veracruz''), (''31'', ''Yucat'' @ [a_acute] @ ''n''), (''32'', ''Zacatecas'')]"

definition BUFFER_DEG :: real where
  "BUFFER_DEG = 0.02"

definition SPECIAL_BUFFER :: real where
  "SPECIAL_BUFFER = 0.1"

definition SPECIAL_STATES :: "string set" where
  "SPECIAL_STATES = {''Jalisco'', ''Tabasco''}"

text \<open>\<^verbatim>\<open>buf = SPECIAL_BUFFER if name in SPECIAL_STATES else BUFFER_DEG\<close>\<close>

definition buf :: "string \<Rightarrow> real" where
  "buf name = (if name \<in> SPECIAL_STATES then SPECIAL_BUFFER else BUFFER_DEG)"

subsection \<open>Boundaries\<close>

text \<open>
  A boundary is a \<^verbatim>\<open>MultiPolygon\<close> with its parts, or a geometry of another class (for a state,
  a \<^verbatim>\<open>Polygon\<close>). The polygons themselves are opaque values of type \<open>'p\<close>.
\<close>

datatype 'p geometry = MultiPolygon "'p list" | Polygon 'p

text \<open>\<^verbatim>\<open>max(xs, key=key)\<close>: the first element whose key is largest, \<^verbatim>\<open>ValueError\<close> on an
  empty sequence.\<close>

fun max_key :: "('a \<Rightarrow> real) \<Rightarrow> 'a list \<Rightarrow> py_error + 'a" where
  "max_key key [] = Inl ValueError"
| "max_key key (x # xs) =
     Inr (fold (\<lambda>y best. if key best < key y then y else best) xs x)"

definition largest_polygon :: "('p \<Rightarrow> real) \<Rightarrow> 'p geometry \<Rightarrow> py_error + 'p geometry" where
  "largest_polygon area_of geom =
     (case geom of
        MultiPolygon geoms \<Rightarrow>
          (case max_key area_of geoms of Inl e \<Rightarrow> Inl e | Inr g \<Rightarrow> Inr (Polygon g))
      | Polygon p \<Rightarrow> Inr (Polygon p))"

subsection \<open>Road rows\<close>

text \<open>The geometry classes of the geometry kernel, and the name \<^verbatim>\<open>geom_type\<close> reports for each.\<close>

datatype geom_kind =
  Point_kind | MultiPoint_kind | LineString_kind | MultiLineString_kind | LinearRing_kind
  | Polygon_kind | MultiPolygon_kind | GeometryCollection_kind

fun geom_type :: "geom_kind \<Rightarrow> string" where
  "geom_type Point_kind = ''Point''"
| "geom_type MultiPoint_kind = ''MultiPoint''"
| "geom_type LineString_kind = ''LineString''"
| "geom_type MultiLineString_kind = ''MultiLineString''"
| "geom_type LinearRing_kind = ''LinearRing''"
| "geom_type Polygon_kind = ''Polygon''"
| "geom_type MultiPolygon_kind = ''MultiPolygon''"
| "geom_type GeometryCollection_kind = ''GeometryCollection''"

text \<open>The line classes: a line string, a collection of line strings, a closed line string.\<close>

definition is_line :: "geom_kind \<Rightarrow> bool" where
  "is_line k = (k = LineString_kind \<or> k = MultiLineString_kind \<or> k = LinearRing_kind)"

text \<open>A row of the edge table: the class and the coordinates of its geometry, and its
  \<^verbatim>\<open>highway\<close> tag. The coordinates are opaque values of type \<open>'l\<close>.\<close>

record 'l road =
  kind :: geom_kind
  shape :: 'l
  highway :: hw_tag

text \<open>\<^verbatim>\<open>roads[roads.geom_type.str.contains("Line")]\<close>\<close>

definition keep_lines :: "'l road list \<Rightarrow> 'l road list" where
  "keep_lines rows = filter (\<lambda>r. str_contains ''Line'' (geom_type (kind r))) rows"

text \<open>\<^verbatim>\<open>Series.apply(f)\<close>: \<^verbatim>\<open>f\<close> on every row in order; the first exception ends the call.\<close>

fun series_apply :: "('a \<Rightarrow> py_error + 'b) \<Rightarrow> 'a list \<Rightarrow> py_error + 'b list" where
  "series_apply f [] = Inr []"
| "series_apply f (x # xs) =
     (case f x of
        Inl e \<Rightarrow> Inl e
      | Inr y \<Rightarrow> (case series_apply f xs of Inl e \<Rightarrow> Inl e | Inr ys \<Rightarrow> Inr (y # ys)))"

subsection \<open>Floats that leave the reals\<close>

text \<open>
  A float is a real number, an infinity or not-a-number; the four operations follow IEEE 754
  on these values (the sign of a zero is not modelled: a zero divisor counts as positive).
\<close>

datatype np_float = Fin real | PosInf | NegInf | NaN

fun np_neg :: "np_float \<Rightarrow> np_float" where
  "np_neg (Fin a) = Fin (- a)"
| "np_neg PosInf = NegInf"
| "np_neg NegInf = PosInf"
| "np_neg NaN = NaN"

fun np_add :: "np_float \<Rightarrow> np_float \<Rightarrow> np_float" where
  "np_add (Fin a) (Fin b) = Fin (a + b)"
| "np_add NaN y = NaN"
| "np_add x NaN = NaN"
| "np_add PosInf NegInf = NaN"
| "np_add NegInf PosInf = NaN"
| "np_add PosInf y = PosInf"
| "np_add NegInf y = NegInf"
| "np_add (Fin a) y = y"

definition np_sub :: "np_float \<Rightarrow> np_float \<Rightarrow> np_float" where
  "np_sub x y = np_add x (np_neg y)"

text \<open>The sign of a float: \<open>1\<close>, \<open>-1\<close> or \<open>0\<close>; not-a-number has none.\<close>

fun np_sign :: "np_float \<Rightarrow> real" where
  "np_sign (Fin a) = sgn a"
| "np_sign PosInf = 1"
| "np_sign NegInf = - 1"
| "np_sign NaN = 0"

definition signed_inf :: "real \<Rightarrow> np_float" where
  "signed_inf s = (if s = 0 then NaN else if 0 < s then PosInf else NegInf)"

fun np_mul :: "np_float \<Rightarrow> np_float \<Rightarrow> np_float" where
  "np_mul (Fin a) (Fin b) = Fin (a * b)"
| "np_mul NaN y = NaN"
| "np_mul x NaN = NaN"
| "np_mul x y = signed_inf (np_sign x * np_sign y)"

fun np_div :: "np_float \<Rightarrow> np_float \<Rightarrow> np_float" where
  "np_div (Fin a) (Fin b) = (if b = 0 then signed_inf (sgn a) else Fin (a / b))"
| "np_div NaN y = NaN"
| "np_div x NaN = NaN"
| "np_div (Fin a) y = Fin 0"
| "np_div x (Fin b) = signed_inf (np_sign x * (if b < 0 then - 1 else 1))"
| "np_div x y = NaN"

subsection \<open>Line widths\<close>

text \<open>\<^verbatim>\<open>Series.min()\<close> and \<^verbatim>\<open>Series.max()\<close>; on an empty series both are not-a-number.\<close>

fun series_min :: "real list \<Rightarrow> np_float" where
  "series_min [] = NaN"
| "series_min (x # xs) = Fin (fold min xs x)"

fun series_max :: "real list \<Rightarrow> np_float" where
  "series_max [] = NaN"
| "series_max (x # xs) = Fin (fold max xs x)"

text \<open>
  Rounding to binary64, to the nearest float and to the even one of two nearest: the
  magnitude is rounded to a multiple of the unit in its last place, which for a magnitude
  between \<open>2 ^ e\<close> and \<open>2 ^ (e + 1)\<close> is \<open>2 ^ (e - 52)\<close>. The exponent is not bounded here: no
  overflow and no underflow, which is right for the magnitudes that the distances inside a
  state produce.
\<close>

definition round_half_even :: "real \<Rightarrow> int" where
  "round_half_even y =
     (let f = \<lfloor>y\<rfloor>
      in if y - of_int f < 1 / 2 then f
         else if 1 / 2 < y - of_int f then f + 1
         else if even f then f else f + 1)"

definition ulp :: "real \<Rightarrow> real" where
  "ulp a = 2 powr of_int (\<lfloor>log 2 a\<rfloor> - 52)"

definition b64 :: "real \<Rightarrow> real" where
  "b64 x = sgn x * (of_int (round_half_even (\<bar>x\<bar> / ulp \<bar>x\<bar>)) * ulp \<bar>x\<bar>)"

text \<open>\<^verbatim>\<open>np.exp\<close>: the exponential, taken as correctly rounded.\<close>

definition np_exp :: "real \<Rightarrow> real" where
  "np_exp x = b64 (exp x)"

text \<open>\<^verbatim>\<open>raw_lw = 1 / np.exp(roads['dist'] / 1e6)\<close>: a division, the exponential and a division,
  each rounded.\<close>

definition raw_width :: "real \<Rightarrow> real" where
  "raw_width d = b64 (1 / np_exp (b64 (d / 1000000)))"

definition raw_lw :: "real list \<Rightarrow> real list" where
  "raw_lw dists = map raw_width dists"

text \<open>\<^verbatim>\<open>0.05 + (raw_lw - mn) / (mx - mn) * (0.9 - 0.05)\<close>, row by row.\<close>

definition rescale :: "np_float \<Rightarrow> np_float \<Rightarrow> real \<Rightarrow> np_float" where
  "rescale mn mx r =
     np_add (Fin 0.05)
       (np_mul (np_div (np_sub (Fin r) mn) (np_sub mx mn)) (np_sub (Fin 0.9) (Fin 0.05)))"

definition line_widths :: "real list \<Rightarrow> np_float list" where
  "line_widths dists =
     (let raw = raw_lw dists; mn = series_min raw; mx = series_max raw
      in map (rescale mn mx) raw)"


subsection \<open>Plot extent and file names\<close>

text \<open>\<^verbatim>\<open>dx, dy = 0.05 * (x1 - x0), 0.05 * (y1 - y0)\<close> and
  \<^verbatim>\<open>extent = (x0 - dx, x1 + dx, y0 - dy, y1 + dy)\<close>\<close>

definition plot_extent :: "real \<times> real \<times> real \<times> real \<Rightarrow> real \<times> real \<times> real \<times> real" where
  "plot_extent b =
     (case b of (x0, y0, x1, y1) \<Rightarrow>
        (let dx = 0.05 * (x1 - x0); dy = 0.05 * (y1 - y0)
         in (x0 - dx, x1 + dx, y0 - dy, y1 + dy)))"

definition safe :: "string \<Rightarrow> string" where
  "safe name =
     str_replace n_tilde CHR ''n''
       (str_replace u_acute CHR ''u''
         (str_replace o_acute CHR ''o''
           (str_replace i_acute CHR ''i''
             (str_replace e_acute CHR ''e''
               (str_replace a_acute CHR ''a''
                 (str_replace CHR '' '' CHR ''_'' (str_lower name)))))))"

text \<open>The safe name in the words of the specification: every character lowercased, then a
  space replaced by an underscore and an accented letter by its plain letter.\<close>

definition translit :: "char \<Rightarrow> char" where
  "translit c =
     (if c = CHR '' '' then CHR ''_''
      else if c = a_acute then CHR ''a''
      else if c = e_acute then CHR ''e''
      else if c = i_acute then CHR ''i''
      else if c = o_acute then CHR ''o''
      else if c = u_acute then CHR ''u''
      else if c = n_tilde then CHR ''n''
      else c)"

definition spec_safe :: "string \<Rightarrow> string" where
  "spec_safe name = map (\<lambda>c. translit (lower_char c)) name"

text \<open>\<^verbatim>\<open>f"output/{variant}_{code}_{safe}.png"\<close>\<close>

definition out_path :: "string \<Rightarrow> string \<Rightarrow> string \<Rightarrow> string" where
  "out_path variant code sf = ''output/'' @ variant @ ''_'' @ code @ ''_'' @ sf @ ''.png''"

text \<open>The file name without its directory, in the words of the specification.\<close>

definition spec_file_name :: "string \<Rightarrow> string \<Rightarrow> string \<Rightarrow> string" where
  "spec_file_name variant code sf = variant @ ''_'' @ code @ ''_'' @ sf @ ''.png''"

subsection \<open>The libraries\<close>

text \<open>
  What the program calls outside itself: the geocoder, the geometry kernel and the road
  service. \<open>fetch_roads\<close> stands for \<^verbatim>\<open>graph_from_polygon\<close>, \<^verbatim>\<open>graph_to_gdfs\<close> and the
  reprojection of the edges; \<open>to_crs\<close> for the reprojection of a boundary.
\<close>

record ('p, 'l, 'c) gis =
  geocode_to_gdf :: "string \<Rightarrow> 'p geometry"
  area :: "'p \<Rightarrow> real"
  buffer :: "'p geometry \<Rightarrow> real \<Rightarrow> 'p geometry"
  fetch_roads :: "'p geometry \<Rightarrow> 'l road list"
  to_crs :: "'p geometry \<Rightarrow> 'p geometry"
  clip :: "'l road list \<Rightarrow> 'p geometry \<Rightarrow> 'l road list"
  centroid :: "'p geometry \<Rightarrow> 'c"
  distance :: "'l \<Rightarrow> 'c \<Rightarrow> real"
  bounds :: "'p geometry \<Rightarrow> real \<times> real \<times> real \<times> real"

subsection \<open>Figures\<close>

datatype colouring = Solid string | By_hwy_code

datatype linewidth = Uniform real | Per_row "np_float list"

text \<open>What one saved figure shows: the background, how the roads are coloured and how wide
  they are drawn, the outline and its colour, the legend, the view limits and the file.\<close>

record 'p figure =
  facecolor :: string
  road_colour :: colouring
  road_linewidth :: linewidth
  outline :: "'p geometry"
  outline_colour :: string
  legend :: "(nat \<times> string) list option"
  xlim :: "real \<times> real"
  ylim :: "real \<times> real"
  path :: string

text \<open>The legend of the type map: one patch for each hierarchy entry, then \<^verbatim>\<open>other\<close>.\<close>

definition patches :: "(nat \<times> string) list" where
  "patches =
     map (\<lambda>i. (i, highway_order ! i)) [0 ..< length highway_order]
     @ [(length highway_order, ''other'')]"

subsection \<open>One iteration of the loop\<close>

text \<open>The rows after step 6, with the columns \<^verbatim>\<open>hwy_code\<close>, \<^verbatim>\<open>dist\<close> and \<^verbatim>\<open>lw\<close>.\<close>

record 'l styled_road = "'l road" +
  hwy_code :: nat
  dist_col :: real
  lw :: np_float

definition styled :: "'l road \<Rightarrow> nat \<Rightarrow> real \<Rightarrow> np_float \<Rightarrow> 'l styled_road" where
  "styled r c d w =
     \<lparr>kind = kind r, shape = shape r, highway = highway r, hwy_code = c, dist_col = d, lw = w\<rparr>"

text \<open>The variables of the loop body when the iteration ends.\<close>

record ('p, 'l, 'c) iteration =
  raw_geom :: "'p geometry"
  clean_geom :: "'p geometry"
  fetch_geom :: "'p geometry"
  boundary_proj :: "'p geometry"
  roads :: "'l styled_road list"
  center :: 'c
  extent :: "real \<times> real \<times> real \<times> real"
  maps :: "'p figure list"

text \<open>Step 2: \<^verbatim>\<open>largest_polygon\<close> for Colima, the raw boundary for every other state.\<close>

definition clean :: "('p \<Rightarrow> real) \<Rightarrow> string \<Rightarrow> 'p geometry \<Rightarrow> py_error + 'p geometry" where
  "clean area_of name raw =
     (if name = ''Colima'' then largest_polygon area_of raw else Inr raw)"

text \<open>The three figures, in the order in which they are saved.\<close>

definition render ::
  "'p geometry \<Rightarrow> real \<times> real \<times> real \<times> real \<Rightarrow> np_float list \<Rightarrow> string \<Rightarrow> string
     \<Rightarrow> 'p figure list" where
  "render boundary ext widths code sf =
     (case ext of (e0, e1, e2, e3) \<Rightarrow>
        [\<lparr>facecolor = ''white'', road_colour = Solid ''black'', road_linewidth = Uniform 0.05,
          outline = boundary, outline_colour = ''black'', legend = None,
          xlim = (e0, e1), ylim = (e2, e3), path = out_path ''basic'' code sf\<rparr>,
         \<lparr>facecolor = ''#090909'', road_colour = By_hwy_code, road_linewidth = Uniform 0.05,
          outline = boundary, outline_colour = ''white'', legend = Some patches,
          xlim = (e0, e1), ylim = (e2, e3), path = out_path ''typemap'' code sf\<rparr>,
         \<lparr>facecolor = ''#090909'', road_colour = By_hwy_code, road_linewidth = Per_row widths,
          outline = boundary, outline_colour = ''white'', legend = None,
          xlim = (e0, e1), ylim = (e2, e3), path = out_path ''distmap'' code sf\<rparr>])"

text \<open>The loop body for one row \<^verbatim>\<open>(code, name)\<close> of the state table, steps 1 to 7 and the three
  maps. An exception of the program's own code ends the iteration (and the run).\<close>

definition process_state ::
  "('p, 'l, 'c) gis \<Rightarrow> string \<Rightarrow> string \<Rightarrow> py_error + ('p, 'l, 'c) iteration" where
  "process_state env code name =
     (let raw = geocode_to_gdf env (name @ '', Mexico'')
      in case clean (area env) name raw of
           Inl e \<Rightarrow> Inl e
         | Inr cg \<Rightarrow>
             (let fg = buffer env cg (buf name);
                  fetched = fetch_roads env fg;
                  bp = to_crs env cg;
                  rows = keep_lines (clip env fetched bp)
              in case series_apply get_hwy_code (map highway rows) of
                   Inl e \<Rightarrow> Inl e
                 | Inr codes \<Rightarrow>
                     (let c = centroid env bp;
                          dists = map (\<lambda>r. distance env (shape r) c) rows;
                          widths = line_widths dists;
                          ext = plot_extent (bounds env bp)
                      in Inr \<lparr>raw_geom = raw, clean_geom = cg, fetch_geom = fg,
                              boundary_proj = bp,
                              roads = map (\<lambda>(r, c, d, w). styled r c d w)
                                        (zip rows (zip codes (zip dists widths))),
                              center = c, extent = ext,
                              maps = render bp ext widths code (safe name)\<rparr>)))"

text \<open>The whole run: the iterations in table order, up to the first exception.\<close>

fun run :: "('p, 'l, 'c) gis \<Rightarrow> (string \<times> string) list \<Rightarrow> py_error + ('p, 'l, 'c) iteration list"
  where
  "run env [] = Inr []"
| "run env ((code, name) # rest) =
     (case process_state env code name of
        Inl e \<Rightarrow> Inl e
      | Inr it \<Rightarrow> (case run env rest of Inl e \<Rightarrow> Inl e | Inr its \<Rightarrow> Inr (it # its)))"

subsection \<open>A small instance of the libraries\<close>

text \<open>
  A toy world on which the loop body can be evaluated: a polygon is its area, a road is its
  distance from the centre, the geocoder answers every query with three parts of areas 1, 3
  and 2, buffering adds the buffer distance to the areas, the road service returns two lines
  and a point, and clipping and reprojection change nothing.
\<close>

definition demo_env :: "(real, real, unit) gis" where
  "demo_env =
     \<lparr>geocode_to_gdf = (\<lambda>q. MultiPolygon [1, 3, 2]),
      area = (\<lambda>p. p),
      buffer = (\<lambda>g b. case g of MultiPolygon ps \<Rightarrow> MultiPolygon (map (\<lambda>p. p + b) ps)
                              | Polygon p \<Rightarrow> Polygon (p + b)),
      fetch_roads = (\<lambda>g.
         [\<lparr>kind = LineString_kind, shape = 0, highway = Str ''primary''\<rparr>,
          \<lparr>kind = Point_kind, shape = 5, highway = Str ''service''\<rparr>,
          \<lparr>kind = MultiLineString_kind, shape = 1000000,
            highway = Lst [''residential'', ''service'']\<rparr>]),
      to_crs = (\<lambda>g. g),
      clip = (\<lambda>rows g. rows),
      centroid = (\<lambda>g. ()),
      distance = (\<lambda>l c. l),
      bounds = (\<lambda>g. (0, 0, 10, 20))\<rparr>"



subsection \<open>Facts about the classifier\<close>

lemma list_index_member:
  "x \<in> set ys \<Longrightarrow> \<exists>i. list_index ys x = Inr i \<and> i < length ys \<and> ys ! i = x"
  by (induction ys) auto

lemma list_index_distinct:
  "distinct ys \<Longrightarrow> i < length ys \<Longrightarrow> list_index ys (ys ! i) = Inr i"
proof (induction ys arbitrary: i)
  case Nil
  then show ?case by simp
next
  case (Cons y ys)
  show ?case
  proof (cases i)
    case 0
    then show ?thesis by simp
  next
    case (Suc j)
    with Cons.prems have "j < length ys" and "ys ! j \<noteq> y" and "distinct ys"
      by auto
    with Cons.IH [of j] Suc show ?thesis by simp
  qed
qed

lemma length_highway_order: "length highway_order = 8"
  by (simp add: highway_order_def)

lemma distinct_highway_order: "distinct highway_order"
  by (simp add: highway_order_def)

lemma get_hwy_code_Str_member:
  assumes "s \<in> set highway_order"
  shows "\<exists>i. get_hwy_code (Str s) = Inr i \<and> i < 8 \<and> highway_order ! i = s"
  using list_index_member [OF assms] assms
  by (auto simp: get_hwy_code_def length_highway_order)

lemma get_hwy_code_Str_other:
  "s \<notin> set highway_order \<Longrightarrow> get_hwy_code (Str s) = Inr 8"
  by (simp add: get_hwy_code_def length_highway_order)

lemma get_hwy_code_Lst_Cons: "get_hwy_code (Lst (x # xs)) = get_hwy_code (Str x)"
  by (simp add: get_hwy_code_def)

lemma get_hwy_code_Lst_Nil: "get_hwy_code (Lst []) = Inl IndexError"
  by (simp add: get_hwy_code_def)

text \<open>
  Claim C2 (highway classification). The classifier reads the tag itself, or the first element
  of a list of tags; a tag at position \<open>i\<close> of the eight-entry hierarchy gets the code \<open>i\<close>, and
  a tag outside the hierarchy gets the code 8. So \<^verbatim>\<open>"primary"\<close> has code 2,
  \<^verbatim>\<open>["residential","service"]\<close> has code 6 and \<^verbatim>\<open>"footway"\<close> has code 8.
\<close>

theorem hwy_classification:
  "highway_order =
     [''motorway'', ''trunk'', ''primary'', ''secondary'',
      ''tertiary'', ''unclassified'', ''residential'', ''service'']
   \<and> get_hwy_code (Lst (x # xs)) = get_hwy_code (Str x)
   \<and> (i < 8 \<longrightarrow> get_hwy_code (Str (highway_order ! i)) = Inr i)
   \<and> (s \<notin> set highway_order \<longrightarrow> get_hwy_code (Str s) = Inr 8)
   \<and> get_hwy_code (Str ''primary'') = Inr 2
   \<and> get_hwy_code (Lst [''residential'', ''service'']) = Inr 6
   \<and> get_hwy_code (Str ''footway'') = Inr 8"
proof -
  have idx: "i < 8 \<longrightarrow> get_hwy_code (Str (highway_order ! i)) = Inr i"
    using list_index_distinct [OF distinct_highway_order, of i]
    by (simp add: get_hwy_code_def length_highway_order)
  have ex: "get_hwy_code (Str ''primary'') = Inr 2"
    "get_hwy_code (Lst [''residential'', ''service'']) = Inr 6"
    "get_hwy_code (Str ''footway'') = Inr 8"
    by (simp_all add: get_hwy_code_def highway_order_def)
  show ?thesis
    using idx ex get_hwy_code_Str_other [of s] get_hwy_code_Lst_Cons [of x xs]
    by (simp add: highway_order_def)
qed

theorem hwy_classification_witness:
  "(3::nat) < 8 \<and> ''cycleway'' \<notin> set highway_order
   \<and> get_hwy_code (Lst [''trunk'', ''footway'']) = get_hwy_code (Str ''trunk'')
   \<and> get_hwy_code (Str ''secondary'') = Inr 3
   \<and> get_hwy_code (Str ''cycleway'') = Inr 8"
proof -
  have a: "(3::nat) < 8" by simp
  have b: "''cycleway'' \<notin> set highway_order" by (simp add: highway_order_def)
  have c: "highway_order ! 3 = ''secondary''" by (simp add: highway_order_def)
  from hwy_classification [of "''trunk''" "[''footway'']" 3 "''cycleway''"] a b c
  show ?thesis by simp
qed

text \<open>
  Claim C10 (range of the classifier). On a string and on a non-empty list of strings the
  classifier returns a code between 0 and 8, and the code is 8 exactly when the tag read (the
  first element of a list) is none of the eight hierarchy entries. On the empty list reading
  the first element raises \<^verbatim>\<open>IndexError\<close>.
\<close>

theorem hwy_code_range:
  "(\<exists>k. get_hwy_code (Str s) = Inr k \<and> k \<le> 8 \<and> (k = 8 \<longleftrightarrow> s \<notin> set highway_order))
   \<and> (\<exists>k. get_hwy_code (Lst (x # xs)) = Inr k \<and> k \<le> 8 \<and> (k = 8 \<longleftrightarrow> x \<notin> set highway_order))
   \<and> get_hwy_code (Lst []) = Inl IndexError"
proof -
  have str: "\<exists>k. get_hwy_code (Str t) = Inr k \<and> k \<le> 8 \<and> (k = 8 \<longleftrightarrow> t \<notin> set highway_order)"
    for t
  proof (cases "t \<in> set highway_order")
    case True
    from get_hwy_code_Str_member [OF True] show ?thesis
      using True by auto
  next
    case False
    then show ?thesis by (simp add: get_hwy_code_Str_other)
  qed
  show ?thesis
    using str [of s] str [of x] by (simp add: get_hwy_code_Lst_Cons get_hwy_code_Lst_Nil)
qed

theorem hwy_code_range_witness:
  "(\<exists>k. get_hwy_code (Str ''service'') = Inr k \<and> k \<le> 8 \<and> k \<noteq> 8)
   \<and> (\<exists>k. get_hwy_code (Lst [''path'', ''primary'']) = Inr k \<and> k = 8)
   \<and> get_hwy_code (Lst []) = Inl IndexError"
proof -
  have a: "''service'' \<in> set highway_order" and b: "''path'' \<notin> set highway_order"
    by (simp_all add: highway_order_def)
  from hwy_code_range [of "''service''" "''path''" "[''primary'']"] a b
  show ?thesis by auto
qed

subsection \<open>Facts about the loop body\<close>

lemma length_states: "length states = 32"
  by (simp add: states_def)

lemma buf_cases: "buf name = (if name = ''Jalisco'' \<or> name = ''Tabasco'' then 0.1 else 0.02)"
  by (simp add: buf_def SPECIAL_STATES_def SPECIAL_BUFFER_def BUFFER_DEG_def)

lemma series_apply_length: "series_apply f xs = Inr ys \<Longrightarrow> length ys = length xs"
  by (induction xs arbitrary: ys) (auto split: sum.splits)

lemma length_line_widths: "length (line_widths ds) = length ds"
  by (simp add: line_widths_def raw_lw_def Let_def)

lemma styled_zip:
  assumes "length codes = length rows" "length dists = length rows" "length widths = length rows"
  shows "map kind (map (\<lambda>(r, c, d, w). styled r c d w) (zip rows (zip codes (zip dists widths))))
           = map kind rows"
    and "map shape (map (\<lambda>(r, c, d, w). styled r c d w) (zip rows (zip codes (zip dists widths))))
           = map shape rows"
    and "map highway (map (\<lambda>(r, c, d, w). styled r c d w) (zip rows (zip codes (zip dists widths))))
           = map highway rows"
    and "map hwy_code (map (\<lambda>(r, c, d, w). styled r c d w) (zip rows (zip codes (zip dists widths))))
           = codes"
    and "map dist_col (map (\<lambda>(r, c, d, w). styled r c d w) (zip rows (zip codes (zip dists widths))))
           = dists"
    and "map lw (map (\<lambda>(r, c, d, w). styled r c d w) (zip rows (zip codes (zip dists widths))))
           = widths"
  using assms by (auto intro!: nth_equalityI simp: styled_def)

lemma process_state_Inr:
  assumes "process_state env code name = Inr it"
  shows "raw_geom it = geocode_to_gdf env (name @ '', Mexico'')"
    and "clean (area env) name (raw_geom it) = Inr (clean_geom it)"
    and "fetch_geom it = buffer env (clean_geom it) (buf name)"
    and "boundary_proj it = to_crs env (clean_geom it)"
    and "center it = centroid env (boundary_proj it)"
    and "extent it = plot_extent (bounds env (boundary_proj it))"
    and "maps it = render (boundary_proj it) (extent it) (map lw (roads it)) code (safe name)"
    and "map kind (roads it)
           = map kind (keep_lines (clip env (fetch_roads env (fetch_geom it)) (boundary_proj it)))"
    and "map shape (roads it)
           = map shape (keep_lines (clip env (fetch_roads env (fetch_geom it)) (boundary_proj it)))"
    and "map highway (roads it)
           = map highway (keep_lines (clip env (fetch_roads env (fetch_geom it)) (boundary_proj it)))"
    and "map dist_col (roads it) = map (\<lambda>r. distance env (shape r) (center it)) (roads it)"
    and "map lw (roads it) = line_widths (map dist_col (roads it))"
    and "series_apply get_hwy_code (map highway (roads it)) = Inr (map hwy_code (roads it))"
proof -
  define raw where "raw = geocode_to_gdf env (name @ '', Mexico'')"
  from assms obtain cg where cg: "clean (area env) name raw = Inr cg"
    by (auto simp: process_state_def raw_def Let_def split: sum.splits)
  define bp where "bp = to_crs env cg"
  define rows where "rows = keep_lines (clip env (fetch_roads env (buffer env cg (buf name))) bp)"
  from assms cg obtain codes where codes: "series_apply get_hwy_code (map highway rows) = Inr codes"
    by (auto simp: process_state_def raw_def rows_def bp_def Let_def split: sum.splits)
  define dists where "dists = map (\<lambda>r. distance env (shape r) (centroid env bp)) rows"
  define rs where "rs = map (\<lambda>(r, c, d, w). styled r c d w)
                          (zip rows (zip codes (zip dists (line_widths dists))))"
  have it: "it = \<lparr>raw_geom = raw, clean_geom = cg, fetch_geom = buffer env cg (buf name),
                  boundary_proj = bp, roads = rs, center = centroid env bp,
                  extent = plot_extent (bounds env bp),
                  maps = render bp (plot_extent (bounds env bp)) (line_widths dists) code (safe name)\<rparr>"
    using assms cg codes
    by (simp add: process_state_def raw_def [symmetric] Let_def bp_def [symmetric]
        rows_def [symmetric] dists_def [symmetric] rs_def [symmetric])
  have len: "length codes = length rows" "length dists = length rows"
    "length (line_widths dists) = length rows"
    using series_apply_length [OF codes] by (simp_all add: dists_def length_line_widths)
  note z = styled_zip [OF len, folded rs_def]
  show "raw_geom it = geocode_to_gdf env (name @ '', Mexico'')"
    by (simp add: it raw_def)
  show "clean (area env) name (raw_geom it) = Inr (clean_geom it)"
    by (simp add: it cg)
  show "fetch_geom it = buffer env (clean_geom it) (buf name)"
    by (simp add: it)
  show "boundary_proj it = to_crs env (clean_geom it)"
    by (simp add: it bp_def)
  show "center it = centroid env (boundary_proj it)"
    by (simp add: it)
  show "extent it = plot_extent (bounds env (boundary_proj it))"
    by (simp add: it)
  show "maps it = render (boundary_proj it) (extent it) (map lw (roads it)) code (safe name)"
    by (simp add: it z)
  show "map kind (roads it)
           = map kind (keep_lines (clip env (fetch_roads env (fetch_geom it)) (boundary_proj it)))"
    by (simp add: it z rows_def)
  show "map shape (roads it)
           = map shape (keep_lines (clip env (fetch_roads env (fetch_geom it)) (boundary_proj it)))"
    by (simp add: it z rows_def)
  show "map highway (roads it)
           = map highway (keep_lines (clip env (fetch_roads env (fetch_geom it)) (boundary_proj it)))"
    by (simp add: it z rows_def)
  have "map (\<lambda>r. distance env (shape r) (centroid env bp)) rs
          = map (\<lambda>s. distance env s (centroid env bp)) (map shape rs)"
    by (simp add: comp_def)
  also have "\<dots> = dists"
    by (simp add: z dists_def comp_def)
  finally show "map dist_col (roads it) = map (\<lambda>r. distance env (shape r) (center it)) (roads it)"
    by (simp add: it z)
  show "map lw (roads it) = line_widths (map dist_col (roads it))"
    by (simp add: it z)
  show "series_apply get_hwy_code (map highway (roads it)) = Inr (map hwy_code (roads it))"
    by (simp add: it z codes)
qed

lemma roads_lw_nth:
  assumes ok: "process_state env code name = Inr it" and r: "r \<in> set (roads it)"
  shows "\<exists>i < length (roads it). roads it ! i = r
           \<and> lw r = line_widths (map dist_col (roads it)) ! i"
proof -
  from r obtain i where i: "i < length (roads it)" "roads it ! i = r"
    by (auto simp: in_set_conv_nth)
  have "lw r = map lw (roads it) ! i" using i by simp
  also have "\<dots> = line_widths (map dist_col (roads it)) ! i"
    by (simp only: process_state_Inr(12) [OF ok])
  finally show ?thesis using i by blast
qed

lemma safe_spec_safe: "safe name = spec_safe name"
  by (simp add: safe_def spec_safe_def str_replace_def str_lower_def translit_def)

lemma render_paths:
  "map path (render b ext ws code sf)
     = [out_path ''basic'' code sf, out_path ''typemap'' code sf, out_path ''distmap'' code sf]"
  by (cases ext) (simp add: render_def)

lemma render_limits:
  "f \<in> set (render b (e0, e1, e2, e3) ws code sf) \<Longrightarrow>
     xlim f = (e0, e1) \<and> ylim f = (e2, e3) \<and> outline f = b"
  by (auto simp: render_def)

lemma length_render: "length (render b ext ws code sf) = 3"
  by (cases ext) (simp add: render_def)

lemma run_Inr:
  "run env tab = Inr its \<Longrightarrow>
     length its = length tab
     \<and> (\<forall>i < length tab. process_state env (fst (tab ! i)) (snd (tab ! i)) = Inr (its ! i))"
proof (induction tab arbitrary: its)
  case Nil
  then show ?case by simp
next
  case (Cons row tab)
  obtain code name where row: "row = (code, name)" by (cases row)
  from Cons.prems row obtain it rest where
    it: "process_state env code name = Inr it" and rest: "run env tab = Inr rest"
    and its: "its = it # rest"
    by (auto split: sum.splits)
  from Cons.IH [OF rest] it its row show ?case
    by (auto simp: nth_Cons split: nat.splits)
qed

subsection \<open>Rounding to binary64\<close>

lemma rhe_int: "round_half_even (of_int n) = n"
  by (simp add: round_half_even_def)


lemma rhe_bounds: "\<lfloor>y\<rfloor> \<le> round_half_even y" "round_half_even y \<le> \<lfloor>y\<rfloor> + 1"
  by (simp_all add: round_half_even_def Let_def)

lemma rhe_mono:
  assumes "y \<le> z"
  shows "round_half_even y \<le> round_half_even z"
proof (cases "\<lfloor>y\<rfloor> = \<lfloor>z\<rfloor>")
  case True
  with assms show ?thesis
    by (auto simp: round_half_even_def Let_def)
next
  case False
  with assms have "\<lfloor>y\<rfloor> < \<lfloor>z\<rfloor>"
    using floor_mono [of y z] by simp
  with rhe_bounds(2) [of y] rhe_bounds(1) [of z] show ?thesis by linarith
qed

lemma ulp_pos: "0 < ulp a"
  by (simp add: ulp_def)

lemma binade:
  assumes "0 < a"
  shows "2 powr of_int \<lfloor>log 2 a\<rfloor> \<le> a" and "a < 2 powr of_int (\<lfloor>log 2 a\<rfloor> + 1)"
  using floor_log_eq_powr_iff [of a 2 "\<lfloor>log 2 a\<rfloor>"] assms by simp_all

lemma ulp_scale: "2 powr of_int k / ulp a = 2 powr of_int (k - \<lfloor>log 2 a\<rfloor> + 52)"
  by (simp add: ulp_def powr_diff [symmetric] algebra_simps)

lemma two_powr_nat: "(2::real) powr of_int (int n) = of_int (2 ^ n)"
  by (simp add: powr_realpow)

lemma mag_bounds:
  assumes "0 < a"
  shows "2 powr of_int \<lfloor>log 2 a\<rfloor> \<le> of_int (round_half_even (a / ulp a)) * ulp a"
    and "of_int (round_half_even (a / ulp a)) * ulp a \<le> 2 powr of_int (\<lfloor>log 2 a\<rfloor> + 1)"
proof -
  let ?e = "\<lfloor>log 2 a\<rfloor>"
  have lo: "2 powr of_int ?e / ulp a = of_int (2 ^ 52)"
    using ulp_scale [of ?e a] two_powr_nat [of 52] by simp
  have hi: "2 powr of_int (?e + 1) / ulp a = of_int (2 ^ 53)"
    using ulp_scale [of "?e + 1" a] two_powr_nat [of 53] by simp
  from binade(1) [OF assms] have "2 powr of_int ?e / ulp a \<le> a / ulp a"
    using ulp_pos [of a] by (simp add: divide_right_mono)
  then have "round_half_even (of_int (2 ^ 52)) \<le> round_half_even (a / ulp a)"
    unfolding lo by (rule rhe_mono)
  then have "(2 ^ 52 :: int) \<le> round_half_even (a / ulp a)"
    by (simp only: rhe_int)
  then have "of_int (2 ^ 52) * ulp a \<le> of_int (round_half_even (a / ulp a)) * ulp a"
    using ulp_pos [of a] by (simp only: mult_le_cancel_right_pos of_int_le_iff)
  moreover have "of_int (2 ^ 52) * ulp a = 2 powr of_int ?e"
    using lo ulp_pos [of a] by (simp add: field_simps)
  ultimately show "2 powr of_int ?e \<le> of_int (round_half_even (a / ulp a)) * ulp a"
    by simp
  from binade(2) [OF assms] have "a / ulp a \<le> 2 powr of_int (?e + 1) / ulp a"
    using ulp_pos [of a] by (simp add: divide_right_mono)
  then have "round_half_even (a / ulp a) \<le> round_half_even (of_int (2 ^ 53))"
    unfolding hi by (rule rhe_mono)
  then have "round_half_even (a / ulp a) \<le> (2 ^ 53 :: int)"
    by (simp only: rhe_int)
  then have "of_int (round_half_even (a / ulp a)) * ulp a \<le> of_int (2 ^ 53) * ulp a"
    using ulp_pos [of a] by (simp only: mult_le_cancel_right_pos of_int_le_iff)
  moreover have "of_int (2 ^ 53) * ulp a = 2 powr of_int (?e + 1)"
    using hi ulp_pos [of a] by (simp add: field_simps)
  ultimately show "of_int (round_half_even (a / ulp a)) * ulp a \<le> 2 powr of_int (?e + 1)"
    by simp
qed

lemma mag_mono:
  assumes "0 < a" "a \<le> b"
  shows "of_int (round_half_even (a / ulp a)) * ulp a
           \<le> of_int (round_half_even (b / ulp b)) * ulp b"
proof -
  from assms have b: "0 < b" by simp
  have le: "\<lfloor>log 2 a\<rfloor> \<le> \<lfloor>log 2 b\<rfloor>"
    using assms by (intro floor_mono log_mono) simp_all
  show ?thesis
  proof (cases "\<lfloor>log 2 a\<rfloor> = \<lfloor>log 2 b\<rfloor>")
    case True
    then have u: "ulp a = ulp b" by (simp add: ulp_def)
    from assms(2) have "a / ulp b \<le> b / ulp b"
      using ulp_pos [of b] by (simp add: divide_right_mono)
    then have "round_half_even (a / ulp b) \<le> round_half_even (b / ulp b)"
      by (rule rhe_mono)
    then show ?thesis
      unfolding u using ulp_pos [of b] by (simp only: mult_le_cancel_right_pos of_int_le_iff)
  next
    case False
    with le have "\<lfloor>log 2 a\<rfloor> + 1 \<le> \<lfloor>log 2 b\<rfloor>" by simp
    then have "(2::real) powr of_int (\<lfloor>log 2 a\<rfloor> + 1) \<le> 2 powr of_int \<lfloor>log 2 b\<rfloor>"
      by (intro powr_mono) simp_all
    with mag_bounds(2) [OF assms(1)] mag_bounds(1) [OF b] show ?thesis by linarith
  qed
qed

lemma b64_zero: "b64 0 = 0"
  by (simp add: b64_def)

lemma b64_pos: "0 < x \<Longrightarrow> b64 x = of_int (round_half_even (x / ulp x)) * ulp x"
  by (simp add: b64_def)

lemma b64_neg: "b64 (- x) = - b64 x"
  by (simp add: b64_def sgn_minus)

lemma b64_gt_zero:
  assumes "0 < x"
  shows "0 < b64 x"
proof -
  have "(0::real) < 2 powr of_int \<lfloor>log 2 x\<rfloor>" by simp
  with mag_bounds(1) [OF assms] show ?thesis
    unfolding b64_pos [OF assms] by linarith
qed

lemma b64_mono:
  assumes "x \<le> y"
  shows "b64 x \<le> b64 y"
proof -
  consider "0 < x" | "x = 0" "0 < y" | "x = 0" "y = 0" | "x < 0" "0 \<le> y" | "y < 0"
    using assms by linarith
  then show ?thesis
  proof cases
    case 1
    with assms show ?thesis by (simp add: b64_pos mag_mono)
  next
    case 2
    then show ?thesis using b64_gt_zero [of y] by (simp add: b64_zero)
  next
    case 3
    then show ?thesis by simp
  next
    case 4
    have "b64 x = - b64 (- x)" by (simp add: b64_neg)
    moreover have "0 < b64 (- x)" using 4 by (intro b64_gt_zero) simp
    moreover have "0 \<le> b64 y"
      using 4 b64_gt_zero [of y] by (cases "y = 0") (simp_all add: b64_zero less_eq_real_def)
    ultimately show ?thesis by linarith
  next
    case 5
    with assms have p: "0 < - y" and q: "- y \<le> - x" by simp_all
    from p q have r: "0 < - x" by simp
    have "b64 (- y) \<le> b64 (- x)"
      unfolding b64_pos [OF p] b64_pos [OF r] by (rule mag_mono [OF p q])
    then show ?thesis by (simp only: b64_neg neg_le_iff_le)
  qed
qed

lemma b64_powr: "b64 (2 powr of_int k) = 2 powr of_int k"
proof -
  have e: "\<lfloor>log 2 (2 powr of_int k)\<rfloor> = k" by simp
  have "2 powr of_int k / ulp (2 powr of_int k) = of_int (2 ^ 52)"
    using ulp_scale [of k "2 powr of_int k"] two_powr_nat [of 52] by (simp add: e)
  then have "round_half_even (2 powr of_int k / ulp (2 powr of_int k)) = 2 ^ 52"
    by (simp only: rhe_int)
  moreover have "of_int (2 ^ 52) * ulp (2 powr of_int k) = 2 powr of_int k"
    by (simp add: ulp_def e powr_diff)
  ultimately show ?thesis
    by (simp add: b64_pos)
qed





lemma b64_one: "b64 1 = 1"
  using b64_powr [of 0] by simp

lemma b64_two: "b64 2 = 2"
  using b64_powr [of 1] by simp

lemma b64_half: "b64 (1 / 2) = 1 / 2"
  using b64_powr [of "- 1"] by (simp add: powr_minus inverse_eq_divide)

lemma raw_width_zero: "raw_width 0 = 1"
  by (simp add: raw_width_def np_exp_def b64_zero b64_one)

lemma raw_width_million: "raw_width 1000000 \<le> 1 / 2"
proof -
  have "(2::real) \<le> exp 1"
    using exp_ge_add_one_self [of "1::real"] by simp
  then have "b64 2 \<le> b64 (exp 1)" by (rule b64_mono)
  then have "2 \<le> np_exp 1" by (simp add: np_exp_def b64_two)
  then have "1 / np_exp 1 \<le> 1 / 2"
    by (simp add: field_simps)
  then have "b64 (1 / np_exp 1) \<le> b64 (1 / 2)" by (rule b64_mono)
  then show ?thesis by (simp add: raw_width_def b64_one b64_half)
qed


subsection \<open>The small instance, evaluated\<close>

lemma demo_widths: "line_widths [0, 1000000] = [Fin 0.9, Fin 0.05]"
proof -
  define x where "x = raw_width 1000000"
  have x: "x \<le> 1 / 2"
    unfolding x_def by (rule raw_width_million)
  then have m: "min x 1 = x" "max x 1 = 1"
    by (simp_all add: min_def max_def)
  from x have ne: "1 - x \<noteq> 0" by simp
  show ?thesis
    using ne
    by (simp add: line_widths_def raw_lw_def rescale_def np_sub_def raw_width_zero
        x_def [symmetric] m Let_def)
qed

lemma demo_iteration:
  "process_state demo_env ''06'' ''Colima'' =
     Inr \<lparr>raw_geom = MultiPolygon [1, 3, 2], clean_geom = Polygon 3,
          fetch_geom = Polygon (3 + 0.02), boundary_proj = Polygon 3,
          roads = [styled \<lparr>kind = LineString_kind, shape = 0, highway = Str ''primary''\<rparr> 2 0 (Fin 0.9),
                   styled \<lparr>kind = MultiLineString_kind, shape = 1000000,
                     highway = Lst [''residential'', ''service'']\<rparr> 6 1000000 (Fin 0.05)],
          center = (), extent = (- 0.5, 10.5, - 1, 21),
          maps = render (Polygon 3) (- 0.5, 10.5, - 1, 21) [Fin 0.9, Fin 0.05] ''06'' ''colima''\<rparr>"
proof -
  have c: "clean (area demo_env) ''Colima'' (MultiPolygon [1, 3, 2]) = Inr (Polygon 3)"
    by (simp add: clean_def largest_polygon_def demo_env_def)
  have b: "buf ''Colima'' = 0.02"
    by (simp add: buf_def SPECIAL_STATES_def BUFFER_DEG_def)
  have k: "keep_lines
             [\<lparr>kind = LineString_kind, shape = 0::real, highway = Str ''primary''\<rparr>,
              \<lparr>kind = Point_kind, shape = 5, highway = Str ''service''\<rparr>,
              \<lparr>kind = MultiLineString_kind, shape = 1000000,
                highway = Lst [''residential'', ''service'']\<rparr>]
           = [\<lparr>kind = LineString_kind, shape = 0, highway = Str ''primary''\<rparr>,
              \<lparr>kind = MultiLineString_kind, shape = 1000000,
                highway = Lst [''residential'', ''service'']\<rparr>]"
    by (simp add: keep_lines_def)
  have h: "get_hwy_code (Str ''primary'') = Inr 2"
    "get_hwy_code (Lst [''residential'', ''service'']) = Inr 6"
    by (simp_all add: get_hwy_code_def highway_order_def)
  have s: "safe ''Colima'' = ''colima''"
    by code_simp
  have e: "plot_extent (0, 0, 10, 20) = (- 0.5, 10.5, - 1, 21)"
    by (simp add: plot_extent_def)
  show ?thesis
    unfolding process_state_def
    by (simp add: demo_env_def c [unfolded demo_env_def, simplified] b k h s e demo_widths
        Let_def)
qed

lemma demo_rows:
  "\<exists>it. process_state (demo_env\<lparr>distance := f\<rparr>) code name = Inr it
        \<and> map kind (roads it) = [LineString_kind, MultiLineString_kind]
        \<and> map shape (roads it) = [0, 1000000]
        \<and> map dist_col (roads it) = [f 0 (), f 1000000 ()]"
proof -
  let ?env = "demo_env\<lparr>distance := f\<rparr>"
  have c: "\<exists>cg. clean (area demo_env) name (MultiPolygon [1, 3, 2]) = Inr cg"
    by (simp add: clean_def largest_polygon_def demo_env_def)
  have k: "keep_lines
             [\<lparr>kind = LineString_kind, shape = 0::real, highway = Str ''primary''\<rparr>,
              \<lparr>kind = Point_kind, shape = 5, highway = Str ''service''\<rparr>,
              \<lparr>kind = MultiLineString_kind, shape = 1000000,
                highway = Lst [''residential'', ''service'']\<rparr>]
           = [\<lparr>kind = LineString_kind, shape = 0, highway = Str ''primary''\<rparr>,
              \<lparr>kind = MultiLineString_kind, shape = 1000000,
                highway = Lst [''residential'', ''service'']\<rparr>]"
    by (simp add: keep_lines_def)
  have h: "get_hwy_code (Str ''primary'') = Inr 2"
    "get_hwy_code (Lst [''residential'', ''service'']) = Inr 6"
    by (simp_all add: get_hwy_code_def highway_order_def)
  from c obtain cg where "clean (area demo_env) name (MultiPolygon [1, 3, 2]) = Inr cg" ..
  then have "\<exists>it. process_state ?env code name = Inr it"
    unfolding process_state_def
    by (simp add: demo_env_def k h Let_def)
  then obtain it where it: "process_state ?env code name = Inr it" ..
  note p = process_state_Inr [OF it]
  have rows: "keep_lines (clip demo_env (fetch_roads demo_env g) b)
           = [\<lparr>kind = LineString_kind, shape = 0, highway = Str ''primary''\<rparr>,
              \<lparr>kind = MultiLineString_kind, shape = 1000000,
                highway = Lst [''residential'', ''service'']\<rparr>]"
    for g b by (simp add: demo_env_def k)
  have ki: "map kind (roads it) = [LineString_kind, MultiLineString_kind]"
    using p(8) by (simp add: rows)
  have sh: "map shape (roads it) = [0, 1000000]"
    using p(9) by (simp add: rows)
  then obtain r1 r2 where rs: "roads it = [r1, r2]" by auto
  with sh have "shape r1 = 0" "shape r2 = 1000000" by simp_all
  with p(11) rs have di: "map dist_col (roads it) = [f 0 (), f 1000000 ()]"
    by (simp add: demo_env_def)
  show ?thesis
    by (intro exI [of _ it] conjI) (rule it ki sh di)+
qed

lemma demo_total: "\<exists>it. process_state demo_env code name = Inr it"
proof -
  have e: "demo_env\<lparr>distance := distance demo_env\<rparr> = demo_env"
    by simp
  from demo_rows [of "distance demo_env" code name] show ?thesis
    unfolding e by (elim exE conjE) (rule exI)
qed

lemma demo_run_total: "\<exists>its. run demo_env tab = Inr its"
proof (induction tab)
  case Nil
  then show ?case by simp
next
  case (Cons row tab)
  obtain code name where row: "row = (code, name)" by (cases row)
  from demo_total [of code name] Cons.IH row show ?case by auto
qed

subsection \<open>Buffer selection\<close>

text \<open>
  Claim C3 (buffer selection). The table has 32 states. The buffer distance of the fetch is
  0.1 degrees when the state name is \<^verbatim>\<open>Jalisco\<close> or \<^verbatim>\<open>Tabasco\<close> (the rows 14 and 27 of the table) and
  0.02 degrees for every other name; the geometry passed to the road service is the cleaned
  boundary buffered by that distance.
\<close>

theorem buffer_selection:
  "length states = 32
   \<and> buf name = (if name = ''Jalisco'' \<or> name = ''Tabasco'' then 0.1 else 0.02)
   \<and> map fst (filter (\<lambda>(code, name). buf name = 0.1) states) = [''14'', ''27'']
   \<and> map fst (filter (\<lambda>(code, name). buf name = 0.02) states)
       = map fst (filter (\<lambda>(code, name). name \<noteq> ''Jalisco'' \<and> name \<noteq> ''Tabasco'') states)
   \<and> (process_state env code name = Inr it \<longrightarrow>
        fetch_geom it = buffer env (clean_geom it)
                          (if name = ''Jalisco'' \<or> name = ''Tabasco'' then 0.1 else 0.02))"
proof -
  have f: "map fst (filter (\<lambda>(code, name). buf name = 0.1) states) = [''14'', ''27'']"
    by (simp add: states_def buf_cases)
  have g: "map fst (filter (\<lambda>(code, name). buf name = 0.02) states)
       = map fst (filter (\<lambda>(code, name). name \<noteq> ''Jalisco'' \<and> name \<noteq> ''Tabasco'') states)"
    by (simp add: states_def buf_cases)
  have p: "process_state env code name = Inr it \<longrightarrow>
        fetch_geom it = buffer env (clean_geom it)
                          (if name = ''Jalisco'' \<or> name = ''Tabasco'' then 0.1 else 0.02)"
    using process_state_Inr(3) [of env code name it] by (simp add: buf_cases)
  from f g p length_states buf_cases [of name] show ?thesis
    by simp
qed

theorem buffer_selection_witness:
  "buf ''Jalisco'' = 0.1 \<and> buf ''Tabasco'' = 0.1 \<and> buf ''Colima'' = 0.02
   \<and> (\<exists>it. process_state demo_env ''06'' ''Colima'' = Inr it
          \<and> fetch_geom it = buffer demo_env (clean_geom it) 0.02)"
proof -
  obtain it where it: "process_state demo_env ''06'' ''Colima'' = Inr it"
    using demo_iteration by simp
  from buffer_selection [of "''Jalisco''" demo_env "''06''" it]
    buffer_selection [of "''Tabasco''" demo_env "''06''" it]
    buffer_selection [of "''Colima''" demo_env "''06''" it] it
  show ?thesis by simp
qed

subsection \<open>Islet reduction\<close>

lemma fold_max_key:
  "fold (\<lambda>y best. if key best < key y then y else best) xs x \<in> set (x # xs)
   \<and> (\<forall>q \<in> set (x # xs). key q \<le> (key (fold (\<lambda>y best. if key best < key y then y else best) xs x) :: real))"
proof (induction xs arbitrary: x)
  case Nil
  then show ?case by simp
next
  case (Cons a xs)
  show ?case
    using Cons.IH [of "if key x < key a then a else x"] by (auto split: if_splits)
qed

lemma max_key_Cons:
  "xs \<noteq> [] \<Longrightarrow> \<exists>p. max_key key xs = Inr p \<and> p \<in> set xs \<and> (\<forall>q \<in> set xs. key q \<le> key p)"
  using fold_max_key [of key "tl xs" "hd xs"] by (cases xs) auto

text \<open>A multi-polygon without parts has no largest part: \<^verbatim>\<open>max\<close> raises.\<close>

lemma clean_Colima_empty: "clean area_of ''Colima'' (MultiPolygon []) = Inl ValueError"
  by (simp add: clean_def largest_polygon_def)

text \<open>
  Claim C4 (islet reduction). For \<^verbatim>\<open>Colima\<close> a multi-polygon with at least one part is replaced
  by one of its parts, whose area is at least the area of every part; for every other state
  name the raw boundary is kept as it is, multi-polygon or not. The cleaned boundary is what
  the iteration buffers for the fetch and reprojects for everything after it.
\<close>

theorem islet_reduction:
  "(geoms \<noteq> [] \<longrightarrow>
      (\<exists>p. clean area_of ''Colima'' (MultiPolygon geoms) = Inr (Polygon p)
           \<and> p \<in> set geoms \<and> (\<forall>q \<in> set geoms. area_of q \<le> area_of p)))
   \<and> (name \<noteq> ''Colima'' \<longrightarrow> clean area_of name raw = Inr raw)
   \<and> (process_state env code name = Inr it \<longrightarrow>
        clean (area env) name (geocode_to_gdf env (name @ '', Mexico'')) = Inr (clean_geom it)
        \<and> boundary_proj it = to_crs env (clean_geom it)
        \<and> fetch_geom it = buffer env (clean_geom it) (buf name))"
proof -
  have a: "geoms \<noteq> [] \<longrightarrow>
      (\<exists>p. clean area_of ''Colima'' (MultiPolygon geoms) = Inr (Polygon p)
           \<and> p \<in> set geoms \<and> (\<forall>q \<in> set geoms. area_of q \<le> area_of p))"
    using max_key_Cons [of geoms area_of] by (auto simp: clean_def largest_polygon_def)
  have b: "name \<noteq> ''Colima'' \<longrightarrow> clean area_of name raw = Inr raw"
    by (simp add: clean_def)
  have c: "process_state env code name = Inr it \<longrightarrow>
        clean (area env) name (geocode_to_gdf env (name @ '', Mexico'')) = Inr (clean_geom it)
        \<and> boundary_proj it = to_crs env (clean_geom it)
        \<and> fetch_geom it = buffer env (clean_geom it) (buf name)"
    using process_state_Inr(1-4) [of env code name it] by simp
  from a b c show ?thesis by blast
qed

theorem islet_reduction_witness:
  "clean (\<lambda>p. p) ''Colima'' (MultiPolygon [1, 3, 2 :: real]) = Inr (Polygon 3)
   \<and> clean (\<lambda>p. p) ''Sonora'' (MultiPolygon [1, 3, 2 :: real]) = Inr (MultiPolygon [1, 3, 2])
   \<and> (\<exists>it. process_state demo_env ''06'' ''Colima'' = Inr it \<and> boundary_proj it = Polygon 3)"
proof -
  have n: "[1, 3, 2 :: real] \<noteq> []" and m: "''Sonora'' \<noteq> ''Colima''" by simp_all
  obtain it where it: "process_state demo_env ''06'' ''Colima'' = Inr it"
    and cg: "clean_geom it = Polygon 3"
    using demo_iteration by simp
  from islet_reduction [of "[1, 3, 2]" "\<lambda>p. p" "''Sonora''" "MultiPolygon [1, 3, 2]"]
    islet_reduction [of _ _ "''Colima''" _ demo_env "''06''" it] n m it
  have "\<exists>p. clean (\<lambda>p. p) ''Colima'' (MultiPolygon [1, 3, 2 :: real]) = Inr (Polygon p)
           \<and> p \<in> set [1, 3, 2] \<and> (\<forall>q \<in> set [1, 3, 2]. q \<le> p)"
    and "clean (\<lambda>p. p) ''Sonora'' (MultiPolygon [1, 3, 2 :: real]) = Inr (MultiPolygon [1, 3, 2])"
    and "boundary_proj it = to_crs demo_env (clean_geom it)"
    by blast+
  then show ?thesis using it cg by (auto simp: demo_env_def)
qed

subsection \<open>The filter after the clip\<close>

lemma contains_Line: "str_contains ''Line'' (geom_type k) = is_line k"
  by (cases k) (simp_all add: is_line_def)

lemma keep_lines_is_line: "r \<in> set (keep_lines rows) \<Longrightarrow> is_line (kind r)"
  by (simp add: keep_lines_def contains_Line)

text \<open>
  Claim C5 (only lines after the clip). The filter on \<^verbatim>\<open>geom_type\<close> keeps exactly the line
  classes: the name of a class contains \<^verbatim>\<open>Line\<close> if and only if the class is a line string, a
  multi line string or a linear ring. So every row of the working road set of an iteration
  has a line geometry, and no point survives.
\<close>

theorem post_clip_lines:
  "(str_contains ''Line'' (geom_type k) \<longleftrightarrow> is_line k)
   \<and> (\<forall>r \<in> set (keep_lines rows). is_line (kind r))
   \<and> (process_state env code name = Inr it \<longrightarrow>
        map kind (roads it)
          = map kind (keep_lines (clip env (fetch_roads env (fetch_geom it)) (boundary_proj it)))
        \<and> (\<forall>r \<in> set (roads it).
              is_line (kind r) \<and> str_contains ''Line'' (geom_type (kind r))
              \<and> kind r \<noteq> Point_kind \<and> kind r \<noteq> MultiPoint_kind))"
proof -
  have p: "map kind (roads it)
          = map kind (keep_lines (clip env (fetch_roads env (fetch_geom it)) (boundary_proj it)))
        \<and> (\<forall>r \<in> set (roads it).
              is_line (kind r) \<and> str_contains ''Line'' (geom_type (kind r))
              \<and> kind r \<noteq> Point_kind \<and> kind r \<noteq> MultiPoint_kind)"
    if ok: "process_state env code name = Inr it"
  proof -
    note m = process_state_Inr(8) [OF ok]
    have "\<forall>x \<in> set (map kind (roads it)). is_line x"
      unfolding m using keep_lines_is_line by auto
    then have "\<forall>r \<in> set (roads it). is_line (kind r)" by simp
    then show ?thesis using m by (auto simp: contains_Line is_line_def)
  qed
  from keep_lines_is_line [of _ rows] p show ?thesis by (simp add: contains_Line)
qed

theorem post_clip_lines_witness:
  "str_contains ''Line'' (geom_type MultiLineString_kind)
   \<and> \<not> str_contains ''Line'' (geom_type MultiPoint_kind)
   \<and> (\<exists>it. process_state demo_env ''06'' ''Colima'' = Inr it
          \<and> map kind (clip demo_env (fetch_roads demo_env (fetch_geom it)) (boundary_proj it))
              = [LineString_kind, Point_kind, MultiLineString_kind]
          \<and> map kind (roads it) = [LineString_kind, MultiLineString_kind]
          \<and> (\<forall>r \<in> set (roads it). is_line (kind r)))"
proof -
  obtain it where it: "process_state demo_env ''06'' ''Colima'' = Inr it"
    using demo_total by blast
  let ?rows = "clip demo_env (fetch_roads demo_env (fetch_geom it)) (boundary_proj it)"
  have rows: "map kind ?rows = [LineString_kind, Point_kind, MultiLineString_kind]"
    by (simp add: demo_env_def)
  have l: "is_line MultiLineString_kind" and p: "\<not> is_line MultiPoint_kind"
    by (simp_all add: is_line_def)
  from post_clip_lines [of MultiLineString_kind ?rows demo_env "''06''" "''Colima''" it] l
  have a: "str_contains ''Line'' (geom_type MultiLineString_kind)"
    and k: "map kind (roads it) = map kind (keep_lines ?rows)"
    and r: "\<forall>r \<in> set (roads it). is_line (kind r)"
    using it by blast+
  from post_clip_lines [of MultiPoint_kind ?rows demo_env "''06''" "''Colima''" it] p
  have b: "\<not> str_contains ''Line'' (geom_type MultiPoint_kind)"
    by blast
  from k have k': "map kind (roads it) = [LineString_kind, MultiLineString_kind]"
    by (simp add: demo_env_def keep_lines_def)
  show ?thesis
    by (intro conjI exI [of _ it]) (rule a b it rows k' r)+
qed

subsection \<open>Output files\<close>

lemma out_path_inj:
  assumes "out_path v c s = out_path v' c' s'"
    and "v \<in> set [''basic'', ''typemap'', ''distmap'']"
    and "v' \<in> set [''basic'', ''typemap'', ''distmap'']"
    and "length c = length c'"
  shows "v = v' \<and> c = c'"
  using assms by (auto simp: out_path_def)

lemma distinct_codes: "distinct (map fst states)"
  by (simp add: states_def)

lemma length_codes: "\<forall>row \<in> set states. length (fst row) = 2"
  by (simp add: states_def)

lemma distinct_table_paths:
  assumes "distinct (map fst tab)" and "\<forall>row \<in> set tab. length (fst row) = 2"
    and vs: "distinct vs"
    and inj: "\<And>v v' c c' s s'. v \<in> set vs \<Longrightarrow> v' \<in> set vs \<Longrightarrow> length c = length c' \<Longrightarrow>
                out_path v c s = out_path v' c' s' \<Longrightarrow> v = v' \<and> c = c'"
  shows "distinct (concat (map (\<lambda>(code, name). map (\<lambda>v. out_path v code (safe name)) vs) tab))"
  using assms(1,2)
proof (induction tab)
  case Nil
  then show ?case by simp
next
  case (Cons row tab)
  obtain c n where row: "row = (c, n)" by (cases row)
  have "inj_on (\<lambda>v. out_path v c (safe n)) (set vs)"
    by (rule inj_onI) (use inj in blast)
  with vs have three: "distinct (map (\<lambda>v. out_path v c (safe n)) vs)"
    by (simp add: distinct_map)
  from Cons.IH Cons.prems
  have ih: "distinct (concat (map (\<lambda>(code, name). map (\<lambda>v. out_path v code (safe name)) vs) tab))"
    by simp
  have inter: "set (map (\<lambda>v. out_path v c (safe n)) vs)
                 \<inter> set (concat (map (\<lambda>(code, name). map (\<lambda>v. out_path v code (safe name)) vs) tab))
               = {}"
  proof (rule ccontr)
    assume "\<not> ?thesis"
    then obtain x where x: "x \<in> set (map (\<lambda>v. out_path v c (safe n)) vs)"
      and y: "x \<in> set (concat (map (\<lambda>(code, name).
                               map (\<lambda>v. out_path v code (safe name)) vs) tab))"
      by blast
    from x obtain v where v: "v \<in> set vs" "x = out_path v c (safe n)"
      by auto
    from y obtain c' n' v' where w: "(c', n') \<in> set tab" "v' \<in> set vs"
      "x = out_path v' c' (safe n')"
      by auto
    from w(1) Cons.prems(2) row have "length c = length c'" by fastforce
    moreover from v(2) w(3) have "out_path v c (safe n) = out_path v' c' (safe n')" by simp
    ultimately have "c = c'" using inj [OF v(1) w(2)] by blast
    with w(1) Cons.prems(1) row show False by force
  qed
  show ?case
    using three ih inter by (simp add: row)
qed

lemma distinct_all_paths:
  "distinct (concat (map (\<lambda>(code, name). map (\<lambda>v. out_path v code (safe name))
       [''basic'', ''typemap'', ''distmap'']) states))"
  by (rule distinct_table_paths [OF distinct_codes length_codes])
    (simp, use out_path_inj in blast)

text \<open>
  Claim C7 (output names). An iteration saves three files, \<^verbatim>\<open>basic\<close>, \<^verbatim>\<open>typemap\<close> and
  \<^verbatim>\<open>distmap\<close>, each named \<^verbatim>\<open>{variant}_{code}_{safe}.png\<close> in the directory \<^verbatim>\<open>output\<close>, with three
  different names; a complete run has 32 iterations, one for each row of the table. The safe
  name is the state name lowercased, with spaces turned into underscores and the six accented
  letters into plain ones: \<^verbatim>\<open>mexico\<close>, \<^verbatim>\<open>nuevo_leon\<close> and \<^verbatim>\<open>san_luis_potosi\<close> for the three names
  of the specification.
\<close>

theorem output_naming:
  "safe name = spec_safe name
   \<and> (process_state env code name = Inr it \<longrightarrow>
        map path (maps it)
          = map (\<lambda>v. ''output/'' @ spec_file_name v code (spec_safe name))
              [''basic'', ''typemap'', ''distmap'']
        \<and> distinct (map path (maps it)))
   \<and> (run env states = Inr its \<longrightarrow>
        length its = 32
        \<and> map (\<lambda>it. map path (maps it)) its
            = map (\<lambda>(code, name).
                     map (\<lambda>v. ''output/'' @ spec_file_name v code (spec_safe name))
                       [''basic'', ''typemap'', ''distmap'']) states
        \<and> distinct (concat (map (\<lambda>it. map path (maps it)) its)))
   \<and> safe (''M'' @ [e_acute] @ ''xico'') = ''mexico''
   \<and> safe (''Nuevo Le'' @ [o_acute] @ ''n'') = ''nuevo_leon''
   \<and> safe (''San Luis Potos'' @ [i_acute]) = ''san_luis_potosi''"
proof -
  have one: "map path (maps it')
          = map (\<lambda>v. ''output/'' @ spec_file_name v code' (spec_safe name'))
              [''basic'', ''typemap'', ''distmap'']"
    if "process_state env code' name' = Inr it'" for code' name' it'
    using process_state_Inr(7) [OF that]
    by (simp add: render_paths out_path_def spec_file_name_def safe_spec_safe)
  have dist: "distinct (map path (maps it))" if "process_state env code name = Inr it"
    using one [OF that] by (simp add: spec_file_name_def)
  have all: "length its = 32
        \<and> map (\<lambda>it. map path (maps it)) its
            = map (\<lambda>(code, name).
                     map (\<lambda>v. ''output/'' @ spec_file_name v code (spec_safe name))
                       [''basic'', ''typemap'', ''distmap'']) states
        \<and> distinct (concat (map (\<lambda>it. map path (maps it)) its))"
    if r: "run env states = Inr its"
  proof -
    from run_Inr [OF r] have len: "length its = length states"
      and each: "\<And>i. i < length states \<Longrightarrow>
                   process_state env (fst (states ! i)) (snd (states ! i)) = Inr (its ! i)"
      by blast+
    have eq: "map (\<lambda>it. map path (maps it)) its
            = map (\<lambda>(code, name).
                     map (\<lambda>v. ''output/'' @ spec_file_name v code (spec_safe name))
                       [''basic'', ''typemap'', ''distmap'']) states"
    proof (rule nth_equalityI)
      show "length (map (\<lambda>it. map path (maps it)) its)
              = length (map (\<lambda>(code, name).
                     map (\<lambda>v. ''output/'' @ spec_file_name v code (spec_safe name))
                       [''basic'', ''typemap'', ''distmap'']) states)"
        by (simp add: len)
    next
      fix i assume "i < length (map (\<lambda>it. map path (maps it)) its)"
      then have i: "i < length states" by (simp add: len)
      from one [OF each [OF i]] i len
      show "map (\<lambda>it. map path (maps it)) its ! i
              = map (\<lambda>(code, name).
                     map (\<lambda>v. ''output/'' @ spec_file_name v code (spec_safe name))
                       [''basic'', ''typemap'', ''distmap'']) states ! i"
        by (simp add: case_prod_beta)
    qed
    have conv: "(\<lambda>(code, name).
                   map (\<lambda>v. ''output/'' @ spec_file_name v code (spec_safe name))
                     [''basic'', ''typemap'', ''distmap''])
                = (\<lambda>(code, name). map (\<lambda>v. out_path v code (safe name))
                     [''basic'', ''typemap'', ''distmap''])"
      by (simp add: out_path_def spec_file_name_def safe_spec_safe)
    have "distinct (concat (map (\<lambda>it. map path (maps it)) its))"
      unfolding eq conv by (rule distinct_all_paths)
    with eq len show ?thesis by (simp only: length_states)
  qed
  have ex: "safe (''M'' @ [e_acute] @ ''xico'') = ''mexico''"
    "safe (''Nuevo Le'' @ [o_acute] @ ''n'') = ''nuevo_leon''"
    "safe (''San Luis Potos'' @ [i_acute]) = ''san_luis_potosi''"
    by code_simp+
  from one [of code name it] dist all ex safe_spec_safe [of name] show ?thesis
    by blast
qed

theorem output_naming_witness:
  "\<exists>its. run demo_env states = Inr its \<and> length its = 32
         \<and> map path (maps (its ! 5))
             = [''output/basic_06_colima.png'', ''output/typemap_06_colima.png'',
                ''output/distmap_06_colima.png'']
         \<and> distinct (map path (maps (its ! 5)))
         \<and> distinct (concat (map (\<lambda>it. map path (maps it)) its))"
proof -
  obtain its where r: "run demo_env states = Inr its"
    using demo_run_total [of states] ..
  from run_Inr [OF r] have p: "process_state demo_env (fst (states ! 5)) (snd (states ! 5)) = Inr (its ! 5)"
    by (simp add: length_states)
  have s: "states ! 5 = (''06'', ''Colima'')"
    by (simp add: states_def)
  have t: "spec_safe ''Colima'' = ''colima''"
    by code_simp
  from output_naming [of "''Colima''" demo_env "''06''" "its ! 5" its] r p s t
  show ?thesis
    by (auto simp: spec_file_name_def)
qed

subsection \<open>View limits\<close>

text \<open>
  Claim C9 (plot extent). When the bounding box of the projected boundary is
  \<open>(x0, y0, x1, y1)\<close>, each of the three figures has the x limits
  \<open>(x0 - 0.05 * (x1 - x0), x1 + 0.05 * (x1 - x0))\<close> and the y limits
  \<open>(y0 - 0.05 * (y1 - y0), y1 + 0.05 * (y1 - y0))\<close>.
\<close>

theorem plot_extent_limits:
  assumes "process_state env code name = Inr it"
    and "bounds env (boundary_proj it) = (x0, y0, x1, y1)"
  shows "length (maps it) = 3
    \<and> extent it = (x0 - 0.05 * (x1 - x0), x1 + 0.05 * (x1 - x0),
                    y0 - 0.05 * (y1 - y0), y1 + 0.05 * (y1 - y0))
    \<and> (\<forall>f \<in> set (maps it).
          xlim f = (x0 - 0.05 * (x1 - x0), x1 + 0.05 * (x1 - x0))
          \<and> ylim f = (y0 - 0.05 * (y1 - y0), y1 + 0.05 * (y1 - y0)))"
proof -
  have e: "extent it = (x0 - 0.05 * (x1 - x0), x1 + 0.05 * (x1 - x0),
                    y0 - 0.05 * (y1 - y0), y1 + 0.05 * (y1 - y0))"
    using process_state_Inr(6) [OF assms(1)] assms(2)
    by (simp add: plot_extent_def Let_def)
  have m: "maps it = render (boundary_proj it)
             (x0 - 0.05 * (x1 - x0), x1 + 0.05 * (x1 - x0),
              y0 - 0.05 * (y1 - y0), y1 + 0.05 * (y1 - y0)) (map lw (roads it)) code (safe name)"
    using process_state_Inr(7) [OF assms(1)] by (simp only: e)
  show ?thesis
    using e render_limits [of _ "boundary_proj it"] by (auto simp: m length_render)
qed

theorem plot_extent_limits_witness:
  "\<exists>it. process_state demo_env ''06'' ''Colima'' = Inr it
        \<and> bounds demo_env (boundary_proj it) = (0, 0, 10, 20)
        \<and> map xlim (maps it) = [(- 0.5, 10.5), (- 0.5, 10.5), (- 0.5, 10.5)]
        \<and> map ylim (maps it) = [(- 1, 21), (- 1, 21), (- 1, 21)]"
proof -
  obtain it where it: "process_state demo_env ''06'' ''Colima'' = Inr it"
    using demo_total by blast
  have b: "bounds demo_env (boundary_proj it) = (0, 0, 10, 20)"
    by (simp add: demo_env_def)
  from plot_extent_limits [OF it b]
  have l: "length (maps it) = 3"
    and a: "\<forall>f \<in> set (maps it). xlim f = (- 0.5, 10.5) \<and> ylim f = (- 1, 21)"
    by simp_all
  from l obtain f g h where m: "maps it = [f, g, h]"
    by (auto simp: length_Suc_conv numeral_3_eq_3)
  from a m it b show ?thesis by auto
qed

subsection \<open>Where the buffered geometry goes\<close>

lemma buffer_only_fetch:
  assumes ok: "process_state env code name = Inr it"
    and same: "fetch_roads env (b' (clean_geom it) (buf name)) = fetch_roads env (fetch_geom it)"
  shows "process_state (env\<lparr>buffer := b'\<rparr>) code name
           = Inr (it\<lparr>fetch_geom := b' (clean_geom it) (buf name)\<rparr>)"
proof -
  define raw where "raw = geocode_to_gdf env (name @ '', Mexico'')"
  from process_state_Inr(1,2) [OF ok] obtain cg
    where cg: "clean_geom it = cg" and c: "clean (area env) name raw = Inr cg"
    by (simp add: raw_def)
  define bp where "bp = to_crs env cg"
  define fetched where "fetched = fetch_roads env (buffer env cg (buf name))"
  have f: "fetch_roads env (b' cg (buf name)) = fetched"
    using same process_state_Inr(3) [OF ok] by (simp add: fetched_def cg)
  define rows where "rows = keep_lines (clip env fetched bp)"
  from ok c obtain codes where codes: "series_apply get_hwy_code (map highway rows) = Inr codes"
    by (auto simp: process_state_def raw_def rows_def fetched_def bp_def Let_def
        split: sum.splits)
  define dists where "dists = map (\<lambda>r. distance env (shape r) (centroid env bp)) rows"
  define rs where "rs = map (\<lambda>(r, c, d, w). styled r c d w)
                          (zip rows (zip codes (zip dists (line_widths dists))))"
  define ms where "ms = render bp (plot_extent (bounds env bp)) (line_widths dists) code (safe name)"
  have it: "it = \<lparr>raw_geom = raw, clean_geom = cg, fetch_geom = buffer env cg (buf name),
                  boundary_proj = bp, roads = rs, center = centroid env bp,
                  extent = plot_extent (bounds env bp), maps = ms\<rparr>"
    using ok c codes
    by (simp add: process_state_def raw_def [symmetric] Let_def bp_def [symmetric]
        fetched_def [symmetric] rows_def [symmetric] dists_def [symmetric] rs_def [symmetric]
        ms_def [symmetric])
  have "process_state (env\<lparr>buffer := b'\<rparr>) code name
          = Inr \<lparr>raw_geom = raw, clean_geom = cg, fetch_geom = b' cg (buf name),
                  boundary_proj = bp, roads = rs, center = centroid env bp,
                  extent = plot_extent (bounds env bp), maps = ms\<rparr>"
    by (simp add: process_state_def raw_def [symmetric] c Let_def bp_def [symmetric] f
        rows_def [symmetric] codes dists_def [symmetric] rs_def [symmetric] ms_def [symmetric])
  also have "\<dots> = Inr (it\<lparr>fetch_geom := b' (clean_geom it) (buf name)\<rparr>)"
    by (simp add: cg) (simp add: it)
  finally show ?thesis .
qed

text \<open>
  Claim C8 (scope of the buffer). The buffered geometry is the argument of the road fetch and
  nothing else: the clip, the centroid of the distances, the plot extent and the outline
  of every figure are computed from the reprojected cleaned boundary. Replacing the
  buffer operation by any other that leads to the same fetched roads changes nothing in the
  iteration but the variable \<^verbatim>\<open>fetch_geom\<close> itself.
\<close>

theorem buffer_scope:
  assumes ok: "process_state env code name = Inr it"
  shows "clean (area env) name (geocode_to_gdf env (name @ '', Mexico'')) = Inr (clean_geom it)
    \<and> fetch_geom it = buffer env (clean_geom it) (buf name)
    \<and> boundary_proj it = to_crs env (clean_geom it)
    \<and> map shape (roads it)
        = map shape (keep_lines (clip env (fetch_roads env (fetch_geom it))
                                   (to_crs env (clean_geom it))))
    \<and> center it = centroid env (to_crs env (clean_geom it))
    \<and> map dist_col (roads it)
        = map (\<lambda>r. distance env (shape r) (centroid env (to_crs env (clean_geom it)))) (roads it)
    \<and> extent it = plot_extent (bounds env (to_crs env (clean_geom it)))
    \<and> (\<forall>f \<in> set (maps it).
          outline f = to_crs env (clean_geom it)
          \<and> (fst (xlim f), snd (xlim f), fst (ylim f), snd (ylim f)) = extent it)
    \<and> (\<forall>b'. fetch_roads env (b' (clean_geom it) (buf name)) = fetch_roads env (fetch_geom it)
          \<longrightarrow> process_state (env\<lparr>buffer := b'\<rparr>) code name
                = Inr (it\<lparr>fetch_geom := b' (clean_geom it) (buf name)\<rparr>))"
proof -
  note p = process_state_Inr [OF ok]
  have c: "clean (area env) name (geocode_to_gdf env (name @ '', Mexico'')) = Inr (clean_geom it)"
    using p(1,2) by simp
  have s: "map shape (roads it)
        = map shape (keep_lines (clip env (fetch_roads env (fetch_geom it))
                                   (to_crs env (clean_geom it))))"
    using p(9) by (simp only: p(4))
  have ce: "center it = centroid env (to_crs env (clean_geom it))"
    using p(5) by (simp only: p(4))
  have d: "map dist_col (roads it)
        = map (\<lambda>r. distance env (shape r) (centroid env (to_crs env (clean_geom it)))) (roads it)"
    using p(11) by (simp only: ce)
  have e: "extent it = plot_extent (bounds env (to_crs env (clean_geom it)))"
    using p(6) by (simp only: p(4))
  have m: "\<forall>f \<in> set (maps it).
          outline f = to_crs env (clean_geom it)
          \<and> (fst (xlim f), snd (xlim f), fst (ylim f), snd (ylim f)) = extent it"
  proof
    fix f assume f: "f \<in> set (maps it)"
    obtain e0 e1 e2 e3 where ex: "extent it = (e0, e1, e2, e3)"
      by (cases "extent it")
    from f have "f \<in> set (render (boundary_proj it) (e0, e1, e2, e3) (map lw (roads it))
                           code (safe name))"
      by (simp only: p(7) ex)
    from render_limits [OF this] show "outline f = to_crs env (clean_geom it)
          \<and> (fst (xlim f), snd (xlim f), fst (ylim f), snd (ylim f)) = extent it"
      by (simp add: ex p(4))
  qed
  have n: "\<forall>b'. fetch_roads env (b' (clean_geom it) (buf name)) = fetch_roads env (fetch_geom it)
          \<longrightarrow> process_state (env\<lparr>buffer := b'\<rparr>) code name
                = Inr (it\<lparr>fetch_geom := b' (clean_geom it) (buf name)\<rparr>)"
    using buffer_only_fetch [OF ok] by blast
  show ?thesis
    by (intro conjI) (rule c p(3) p(4) s ce d e m n)+
qed

theorem buffer_scope_witness:
  "\<exists>it. process_state demo_env ''06'' ''Colima'' = Inr it
        \<and> clean_geom it = Polygon 3
        \<and> fetch_geom it = Polygon (3 + 0.02)
        \<and> boundary_proj it = Polygon 3
        \<and> map outline (maps it) = [Polygon 3, Polygon 3, Polygon 3]
        \<and> process_state (demo_env\<lparr>buffer := \<lambda>g b. g\<rparr>) ''06'' ''Colima''
            = Inr (it\<lparr>fetch_geom := Polygon 3\<rparr>)"
proof -
  obtain it where it: "process_state demo_env ''06'' ''Colima'' = Inr it"
    using demo_total by blast
  note b = buffer_scope [OF it]
  have c: "clean (area demo_env) ''Colima'' (geocode_to_gdf demo_env (''Colima'' @ '', Mexico''))
             = Inr (Polygon 3)"
    by (simp add: clean_def largest_polygon_def demo_env_def)
  with b have cg: "clean_geom it = Polygon 3" by simp
  have bf: "buf ''Colima'' = 0.02"
    by (simp add: buf_def SPECIAL_STATES_def BUFFER_DEG_def)
  from b have fg: "fetch_geom it = Polygon (3 + 0.02)"
    by (simp add: cg bf demo_env_def)
  from b have bp: "boundary_proj it = Polygon 3"
    by (simp add: cg demo_env_def)
  from b have o: "\<forall>f \<in> set (maps it). outline f = Polygon 3"
    by (simp add: cg demo_env_def)
  have "length (maps it) = 3"
    by (simp only: process_state_Inr(7) [OF it] length_render)
  then obtain f g h where m: "maps it = [f, g, h]"
    by (auto simp: length_Suc_conv numeral_3_eq_3)
  have same: "fetch_roads demo_env ((\<lambda>g b. g) (clean_geom it) (buf ''Colima''))
                = fetch_roads demo_env (fetch_geom it)"
    by (simp add: demo_env_def)
  note n = b [THEN conjunct2, THEN conjunct2, THEN conjunct2, THEN conjunct2,
      THEN conjunct2, THEN conjunct2, THEN conjunct2, THEN conjunct2, rule_format]
  from n [of "\<lambda>g b. g", OF same]
  have "process_state (demo_env\<lparr>buffer := \<lambda>g b. g\<rparr>) ''06'' ''Colima''
            = Inr (it\<lparr>fetch_geom := (\<lambda>g b. g) (clean_geom it) (buf ''Colima'')\<rparr>)" .
  with it cg fg bp o m show ?thesis by simp
qed

subsection \<open>Width rescaling\<close>

lemma series_min_Min: "xs \<noteq> [] \<Longrightarrow> series_min xs = Fin (Min (set xs))"
proof (cases xs)
  case Nil
  assume "xs \<noteq> []"
  with Nil show ?thesis by simp
next
  case (Cons x ys)
  show ?thesis unfolding Cons by (simp only: series_min.simps Min.set_eq_fold)
qed

lemma series_max_Max: "xs \<noteq> [] \<Longrightarrow> series_max xs = Fin (Max (set xs))"
proof (cases xs)
  case Nil
  assume "xs \<noteq> []"
  with Nil show ?thesis by simp
next
  case (Cons x ys)
  show ?thesis unfolding Cons by (simp only: series_max.simps Max.set_eq_fold)
qed


lemma rescale_same: "rescale (Fin m) (Fin m) m = NaN"
  by (simp add: rescale_def np_sub_def signed_inf_def)








lemma line_widths_same:
  assumes "\<forall>x \<in> set ds. x = d"
  shows "line_widths ds = replicate (length ds) NaN"
proof (cases ds)
  case Nil
  then show ?thesis by (simp add: line_widths_def raw_lw_def)
next
  case (Cons x xs)
  with assms have ds: "ds = replicate (length ds) d"
    by (metis replicate_eqI)
  have raw: "raw_lw ds = replicate (length ds) (raw_width d)"
    by (subst ds) (simp add: raw_lw_def)
  from Cons have pos: "0 < length ds" by simp
  then have ne: "replicate (length ds) (raw_width d) \<noteq> []" by simp
  from pos have s: "set (replicate (length ds) (raw_width d)) = {raw_width d}" by auto
  show ?thesis
    by (simp add: line_widths_def raw Let_def series_min_Min [OF ne] series_max_Max [OF ne] s
        rescale_same del: replicate_eq_replicate)
qed





text \<open>
  Claim C6 (division by zero). In an iteration whose roads all have the same distance from
  the centroid (and there is at least one road), the least and the greatest raw width are the
  same number, so the divisor \<^verbatim>\<open>mx - mn\<close> of the rescaling is zero. Nothing guards the division:
  the quotient is zero divided by zero, and the width of every road is not-a-number.
\<close>

theorem identical_distance_division:
  assumes ok: "process_state env code name = Inr it"
    and ne: "roads it \<noteq> []"
    and same: "\<forall>r \<in> set (roads it). dist_col r = d"
  shows "series_min (raw_lw (map dist_col (roads it))) = Fin (raw_width d)
    \<and> series_max (raw_lw (map dist_col (roads it))) = Fin (raw_width d)
    \<and> np_sub (series_max (raw_lw (map dist_col (roads it))))
         (series_min (raw_lw (map dist_col (roads it)))) = Fin 0
    \<and> np_div (Fin 0) (Fin 0) = NaN
    \<and> (\<forall>r \<in> set (roads it). lw r = NaN)"
proof -
  let ?ds = "map dist_col (roads it)"
  from same have all: "\<forall>x \<in> set ?ds. x = d" by simp
  from ne have pos: "0 < length ?ds" by simp
  from all have ds: "?ds = replicate (length ?ds) d"
    by (metis replicate_eqI)
  have raw: "raw_lw ?ds = replicate (length ?ds) (raw_width d)"
    by (subst ds) (simp add: raw_lw_def)
  from pos have rne: "replicate (length ?ds) (raw_width d) \<noteq> []" by simp
  from pos have s: "set (replicate (length ?ds) (raw_width d)) = {raw_width d}"
    by auto
  have mn: "series_min (raw_lw ?ds) = Fin (raw_width d)"
    unfolding raw by (simp only: series_min_Min [OF rne] s Min_singleton)
  have mx: "series_max (raw_lw ?ds) = Fin (raw_width d)"
    unfolding raw by (simp only: series_max_Max [OF rne] s Max_singleton)
  have sub: "np_sub (series_max (raw_lw ?ds)) (series_min (raw_lw ?ds)) = Fin 0"
    unfolding mn mx by (simp add: np_sub_def)
  have dv: "np_div (Fin 0) (Fin 0) = NaN"
    by (simp add: signed_inf_def)
  have nan: "\<forall>r \<in> set (roads it). lw r = NaN"
  proof
    fix r assume "r \<in> set (roads it)"
    from roads_lw_nth [OF ok this] obtain i where "i < length (roads it)"
      "lw r = line_widths ?ds ! i"
      by blast
    then show "lw r = NaN" by (simp add: line_widths_same [OF all])
  qed
  show ?thesis
    by (intro conjI) (rule mn mx sub dv nan)+
qed

theorem identical_distance_division_witness:
  "\<exists>it. process_state (demo_env\<lparr>distance := \<lambda>l c. 7\<rparr>) ''06'' ''Colima'' = Inr it
        \<and> map dist_col (roads it) = [7, 7]
        \<and> map lw (roads it) = [NaN, NaN]"
proof -
  from demo_rows [of "\<lambda>l c. 7" "''06''" "''Colima''"] obtain it
    where it: "process_state (demo_env\<lparr>distance := \<lambda>l c. 7\<rparr>) ''06'' ''Colima'' = Inr it"
      and ds: "map dist_col (roads it) = [7, 7]"
    by auto
  from ds obtain r1 r2 where rs: "roads it = [r1, r2]" by auto
  with ds have d: "dist_col r1 = 7" "dist_col r2 = 7" by simp_all
  have ne: "roads it \<noteq> []" and same: "\<forall>r \<in> set (roads it). dist_col r = 7"
    by (simp_all add: rs d)
  from identical_distance_division [OF it ne same] have "\<forall>r \<in> set (roads it). lw r = NaN"
    by blast
  then show ?thesis using it ds rs by auto
qed

end
